theory Spec2Isabelle
  imports Main "HOL-Library.AList"
begin

section \<open>Wildcard patterns (ScriptManager.m, url:matchesPattern:)\<close>

text \<open>
  Strings are lists of 8-bit characters. The three characters the translation treats
  specially are named once.
\<close>

definition backslash :: char where
  "backslash = CHR 0x5C"

definition star :: char where
  "star = CHR ''*''"

definition dot :: char where
  "dot = CHR ''.''"

text \<open>
  \<open>+[NSRegularExpression escapedPatternForString:]\<close> puts a backslash in front of every
  character that is a pattern metacharacter. Foundation's set of those characters is
  \<open>* ? + [ ( ) { } ^ $ | \ . /\<close>.
\<close>

definition metaChars :: "char list" where
  "metaChars = ''*?+[(){}^$|./'' @ [backslash]"

definition isMeta :: "char \<Rightarrow> bool" where
  "isMeta c = (c \<in> set metaChars)"

definition escapedPatternForString :: "string \<Rightarrow> string" where
  "escapedPatternForString p = concat (map (\<lambda>c. if isMeta c then [backslash, c] else [c]) p)"

text \<open>
  \<open>-[NSString stringByReplacingOccurrencesOfString:withString:]\<close>: one scan from the left,
  every occurrence of the target replaced, the scan resuming after the occurrence. An empty
  target replaces nothing.
\<close>

function replaceOccurrences :: "string \<Rightarrow> string \<Rightarrow> string \<Rightarrow> string" where
  "replaceOccurrences target repl [] = []"
| "replaceOccurrences target repl (c # cs) =
     (if target \<noteq> [] \<and> take (length target) (c # cs) = target
      then repl @ replaceOccurrences target repl (drop (length target) (c # cs))
      else c # replaceOccurrences target repl cs)"
  by pat_completeness auto
termination
  by (relation "measure (\<lambda>(t, r, s). length s)") auto

text \<open>
  The first two statements of url:matchesPattern: the pattern is escaped, then every
  escaped star \<open>\*\<close> is replaced by \<open>.*\<close>.
\<close>

definition regexPatternOf :: "string \<Rightarrow> string" where
  "regexPatternOf pattern =
     replaceOccurrences [backslash, star] [dot, star] (escapedPatternForString pattern)"

text \<open>
  The regular expressions that can come out of \<open>regexPatternOf\<close> are sequences of two
  kinds of item: a character to be matched literally, and \<open>.*\<close>.

  \<open>regularExpressionWithPattern\<close> reads the regular expression text: a backslash followed
  by a metacharacter is that character taken literally, \<open>.*\<close> is the wildcard, any other
  character that is no metacharacter stands for itself. The regular expression engine
  refuses a pattern of length zero (\<open>EmptyPattern\<close>). Text that uses a metacharacter in any
  other way is outside the fragment read here and is answered \<open>Unsupported\<close>;
  \<open>regexPatternOf_compiles\<close> below shows that url:matchesPattern: never produces such text.
\<close>

datatype atom = Lit char | AnyStar

type_synonym regex = "atom list"

datatype regex_error = EmptyPattern | Unsupported

fun readAtoms :: "string \<Rightarrow> regex_error + regex" where
  "readAtoms [] = Inr []"
| "readAtoms (c # cs) =
     (if c = backslash then
        (case cs of
           [] \<Rightarrow> Inl Unsupported
         | d # ds \<Rightarrow>
             if isMeta d then
               (case readAtoms ds of Inl e \<Rightarrow> Inl e | Inr r \<Rightarrow> Inr (Lit d # r))
             else Inl Unsupported)
      else if c = dot then
        (case cs of
           [] \<Rightarrow> Inl Unsupported
         | d # ds \<Rightarrow>
             if d = star then
               (case readAtoms ds of Inl e \<Rightarrow> Inl e | Inr r \<Rightarrow> Inr (AnyStar # r))
             else Inl Unsupported)
      else if isMeta c then Inl Unsupported
      else (case readAtoms cs of Inl e \<Rightarrow> Inl e | Inr r \<Rightarrow> Inr (Lit c # r)))"

definition regularExpressionWithPattern :: "string \<Rightarrow> regex_error + regex" where
  "regularExpressionWithPattern p = (if p = [] then Inl EmptyPattern else readAtoms p)"

text \<open>
  The expression is compiled with NSRegularExpressionCaseInsensitive: a literal matches a
  character of the text when the two are equal up to the case of a letter. Letters are
  the ASCII letters.
\<close>

definition lowercaseChar :: "char \<Rightarrow> char" where
  "lowercaseChar c =
     (case map_of (zip ''ABCDEFGHIJKLMNOPQRSTUVWXYZ'' ''abcdefghijklmnopqrstuvwxyz'') c of
        Some d \<Rightarrow> d
      | None \<Rightarrow> c)"

definition lowercaseString :: "string \<Rightarrow> string" where
  "lowercaseString s = map lowercaseChar s"

definition sameLetter :: "char \<Rightarrow> char \<Rightarrow> bool" where
  "sameLetter c d = (lowercaseChar c = lowercaseChar d)"

text \<open>
  Without the dot-matches-line-separators option, which url:matchesPattern: does not set,
  \<open>.\<close> matches every character except a line terminator.
\<close>

definition isLineTerminator :: "char \<Rightarrow> bool" where
  "isLineTerminator c = (c \<in> set [CHR 0x0A, CHR 0x0B, CHR 0x0C, CHR 0x0D, CHR 0x85])"

text \<open>
  \<open>matchAt r s\<close> tries to match \<open>r\<close> at the start of \<open>s\<close> the way a backtracking engine
  does: \<open>.*\<close> is greedy, it first takes as many characters as it can and gives them back
  one at a time while the rest of the expression fails. The result is what is left of
  \<open>s\<close> after the match, or \<open>None\<close>.
\<close>

fun matchAt :: "regex \<Rightarrow> string \<Rightarrow> string option" where
  "matchAt [] s = Some s"
| "matchAt (Lit c # r) [] = None"
| "matchAt (Lit c # r) (x # xs) = (if sameLetter c x then matchAt r xs else None)"
| "matchAt (AnyStar # r) [] = matchAt r []"
| "matchAt (AnyStar # r) (x # xs) =
     (if isLineTerminator x then matchAt r (x # xs)
      else (case matchAt (AnyStar # r) xs of
              Some rest \<Rightarrow> Some rest
            | None \<Rightarrow> matchAt r (x # xs)))"

text \<open>
  \<open>numberOfMatchesInString:options:range:\<close> over the whole string: the engine looks for a
  match at the current position and, finding none, one character further; after a match it
  goes on where the match ended, or one character further when the match was empty.
\<close>

function numberOfMatchesInString :: "regex \<Rightarrow> string \<Rightarrow> nat" where
  "numberOfMatchesInString r s =
     (case matchAt r s of
        None \<Rightarrow> (case s of [] \<Rightarrow> 0 | x # xs \<Rightarrow> numberOfMatchesInString r xs)
      | Some rest \<Rightarrow>
          Suc (if length rest < length s then numberOfMatchesInString r rest
               else (case s of [] \<Rightarrow> 0 | x # xs \<Rightarrow> numberOfMatchesInString r xs)))"
  by pat_completeness auto
termination
  by (relation "measure (\<lambda>(r, s). length s)") auto

text \<open>
  url:matchesPattern: itself. A pattern whose regular expression does not compile is
  logged and matches nothing.
\<close>

definition url_matchesPattern :: "string \<Rightarrow> string \<Rightarrow> bool" where
  "url_matchesPattern urlString pattern =
     (case regularExpressionWithPattern (regexPatternOf pattern) of
        Inl error \<Rightarrow> False
      | Inr regex \<Rightarrow> 0 < numberOfMatchesInString regex urlString)"

text \<open>
  What each character of a wildcard pattern stands for once the pattern is compiled: the
  star is the wildcard, every other character is itself.
\<close>

definition atomOf :: "char \<Rightarrow> atom" where
  "atomOf c = (if c = star then AnyStar else Lit c)"


text \<open>
  The evaluation of a rule set in the words of the specification (section 4.1): a URL
  matches if any include pattern matches and no exclude pattern matches. It is what
  scriptsForURL: is compared with, and is not taken from the code: ScriptManager.m keeps
  one include pattern per script, its \<open>domain\<close>, and has no exclude rules. Each single
  pattern is decided by the code's url:matchesPattern:.
\<close>

datatype kind = Include | Exclude

type_synonym rule = "kind \<times> string"

definition specMatches :: "rule list \<Rightarrow> string \<Rightarrow> bool" where
  "specMatches rules url =
     (list_ex (\<lambda>r. fst r = Include \<and> url_matchesPattern url (snd r)) rules \<and>
      \<not> list_ex (\<lambda>r. fst r = Exclude \<and> url_matchesPattern url (snd r)) rules)"

section \<open>The script store (ScriptManager.m)\<close>

text \<open>
  Foundation objects, as far as the store and its snapshots hold them. A dictionary is an
  association list; the order of the list stands for the order in which the dictionary
  enumerates its entries, which Foundation leaves unspecified.
\<close>

datatype obj =
    NSString string
  | NSNumber int
  | NSDate nat
  | NSNull
  | NSArray "obj list"
  | NSDictionary "(string \<times> obj) list"

type_synonym dict = "(string \<times> obj) list"

text \<open>
  The manager's two dictionaries, with the value types their declarations give
  (\<open>NSMutableDictionary<NSString *, NSDictionary *>\<close> and
  \<open>NSMutableDictionary<NSString *, NSString *>\<close>), and the two entries of NSUserDefaults
  the manager writes (\<open>None\<close>: the entry has never been written).
\<close>

record store =
  scripts :: "(string \<times> dict) list"
  scriptSources :: "(string \<times> string) list"
  storedMetadata :: "(string \<times> dict) list option"
  storedSources :: "(string \<times> string) list option"

text \<open>
  Objective-C exceptions. Nothing in ScriptManager.m catches one, so an exception ends the
  call, and the model keeps no store for it. \<open>NSInvalidArgumentException\<close> is what
  Foundation raises for an object of the wrong kind. \<open>UndeclaredType\<close> marks the one place
  where the code would put an object into a property whose declared type excludes it; the
  model stops there.
\<close>

datatype exn = NSInvalidArgumentException | UndeclaredType

text \<open>
  NSUserDefaults accepts property-list objects only: strings, numbers, dates, and arrays
  and dictionaries of them. \<open>setObject:forKey:\<close> raises for anything else, which among the
  objects here is NSNull.
\<close>

fun isPropertyList :: "obj \<Rightarrow> bool" where
  "isPropertyList (NSString s) = True"
| "isPropertyList (NSNumber n) = True"
| "isPropertyList (NSDate t) = True"
| "isPropertyList NSNull = False"
| "isPropertyList (NSArray xs) = list_all isPropertyList xs"
| "isPropertyList (NSDictionary kvs) = list_all (\<lambda>kv. isPropertyList (snd kv)) kvs"

definition metadataObject :: "(string \<times> dict) list \<Rightarrow> obj" where
  "metadataObject m = NSDictionary (map (\<lambda>kv. (fst kv, NSDictionary (snd kv))) m)"

definition sourcesObject :: "(string \<times> string) list \<Rightarrow> obj" where
  "sourcesObject m = NSDictionary (map (\<lambda>kv. (fst kv, NSString (snd kv))) m)"

definition init :: "(string \<times> dict) list option \<Rightarrow> (string \<times> string) list option \<Rightarrow> store" where
  "init savedMetadata savedSources =
     \<lparr>scripts = [], scriptSources = [],
      storedMetadata = savedMetadata, storedSources = savedSources\<rparr>"

definition loadScripts :: "store \<Rightarrow> store" where
  "loadScripts st =
     st\<lparr>scripts := (case storedMetadata st of Some m \<Rightarrow> m | None \<Rightarrow> []),
        scriptSources := (case storedSources st of Some m \<Rightarrow> m | None \<Rightarrow> [])\<rparr>"

definition saveScriptsToStorage :: "store \<Rightarrow> exn + store" where
  "saveScriptsToStorage st =
     (if \<not> isPropertyList (metadataObject (scripts st)) then Inl NSInvalidArgumentException
      else if \<not> isPropertyList (sourcesObject (scriptSources st)) then
        Inl NSInvalidArgumentException
      else Inr (st\<lparr>storedMetadata := Some (scripts st),
                   storedSources := Some (scriptSources st)\<rparr>))"

text \<open>
  saveScriptWithId:name:description:sourceCode:version:domain:. \<open>now\<close> is the reading of
  \<open>[NSDate date]\<close>. Setting the value of a key the dictionary already has keeps the entry
  where it is; a new key is put at the end of the enumeration.
\<close>

definition saveScriptWithId ::
  "nat \<Rightarrow> string \<Rightarrow> string \<Rightarrow> string \<Rightarrow> string \<Rightarrow> string \<Rightarrow> string \<Rightarrow> store \<Rightarrow> exn + store"
where
  "saveScriptWithId now scriptId name description sourceCode version domainPattern st =
     (let metadata =
            [(''id'', NSString scriptId),
             (''name'', NSString name),
             (''description'', NSString description),
             (''version'', NSString version),
             (''domain'', NSString domainPattern),
             (''updatedAt'', NSDate now)]
      in saveScriptsToStorage
           (st\<lparr>scripts := AList.update scriptId metadata (scripts st),
               scriptSources := AList.update scriptId sourceCode (scriptSources st)\<rparr>))"

definition removeScriptById :: "string \<Rightarrow> store \<Rightarrow> exn + store" where
  "removeScriptById scriptId st =
     saveScriptsToStorage
       (st\<lparr>scripts := AList.delete scriptId (scripts st),
           scriptSources := AList.delete scriptId (scriptSources st)\<rparr>)"

definition clearAllScripts :: "store \<Rightarrow> exn + store" where
  "clearAllScripts st = saveScriptsToStorage (st\<lparr>scripts := [], scriptSources := []\<rparr>)"

text \<open>
  scriptsForURL:. The URL is taken as its absolute string. The block runs once for every
  entry of \<open>scripts\<close>, in the order of enumeration, and adds to the mutable array
  \<open>matchingScripts\<close>, here the accumulator. The pattern is whatever the metadata holds under
  \<open>domain\<close>; url:matchesPattern: takes a string, and Foundation raises when it is handed no
  object or an object that is no string.
\<close>

fun enumerateKeysAndObjects ::
  "(string \<times> string) list \<Rightarrow> string \<Rightarrow> (string \<times> dict) list \<Rightarrow> string list \<Rightarrow> exn + string list"
where
  "enumerateKeysAndObjects sources urlString [] matchingScripts = Inr matchingScripts"
| "enumerateKeysAndObjects sources urlString ((key, obj) # rest) matchingScripts =
     (case map_of obj ''domain'' of
        Some (NSString pattern) \<Rightarrow>
          if url_matchesPattern urlString pattern then
            (case map_of sources key of
               Some src \<Rightarrow>
                 enumerateKeysAndObjects sources urlString rest (matchingScripts @ [src])
             | None \<Rightarrow> enumerateKeysAndObjects sources urlString rest matchingScripts)
          else enumerateKeysAndObjects sources urlString rest matchingScripts
      | _ \<Rightarrow> Inl NSInvalidArgumentException)"

definition scriptsForURL :: "string \<Rightarrow> store \<Rightarrow> exn + string list" where
  "scriptsForURL url st =
     (let urlString = lowercaseString url
      in enumerateKeysAndObjects (scriptSources st) urlString (scripts st) [])"

definition listAllScriptsMetadata :: "store \<Rightarrow> dict list" where
  "listAllScriptsMetadata st = map snd (scripts st)"

text \<open>
  NSJSONSerialization. An object can be written as JSON when it is an array or a dictionary
  and is built from strings, numbers, NSNull, arrays and dictionaries only;
  \<open>dataWithJSONObject:options:error:\<close> raises NSInvalidArgumentException for any other
  object. The text of a JSON document is not modelled: a string is represented by the
  object it encodes, or is \<open>Malformed\<close> when it is not the encoding of anything.
  \<open>JSONObjectWithData:options:error:\<close> answers nil and sets the error for a malformed string.
\<close>

fun isJSONValue :: "obj \<Rightarrow> bool" where
  "isJSONValue (NSString s) = True"
| "isJSONValue (NSNumber n) = True"
| "isJSONValue (NSDate t) = False"
| "isJSONValue NSNull = True"
| "isJSONValue (NSArray xs) = list_all isJSONValue xs"
| "isJSONValue (NSDictionary kvs) = list_all (\<lambda>kv. isJSONValue (snd kv)) kvs"

definition isValidJSONObject :: "obj \<Rightarrow> bool" where
  "isValidJSONObject v =
     (case v of
        NSArray xs \<Rightarrow> isJSONValue v
      | NSDictionary kvs \<Rightarrow> isJSONValue v
      | _ \<Rightarrow> False)"

datatype jsonString = Malformed | Encodes obj

definition dataWithJSONObject :: "obj \<Rightarrow> exn + jsonString" where
  "dataWithJSONObject v =
     (if isValidJSONObject v then Inr (Encodes v) else Inl NSInvalidArgumentException)"

definition JSONObjectWithData :: "jsonString \<Rightarrow> obj option" where
  "JSONObjectWithData js =
     (case js of
        Malformed \<Rightarrow> None
      | Encodes v \<Rightarrow> if isValidJSONObject v then Some v else None)"

text \<open>
  exportScriptsAsJSON. \<open>now\<close> is the reading of \<open>[NSDate date]\<close> for \<open>exportDate\<close>.
\<close>

definition exportData :: "nat \<Rightarrow> store \<Rightarrow> obj" where
  "exportData now st =
     NSDictionary
       [(''metadata'', metadataObject (scripts st)),
        (''sources'', sourcesObject (scriptSources st)),
        (''exportDate'', NSDate now),
        (''version'', NSString ''1.0'')]"

definition exportScriptsAsJSON :: "nat \<Rightarrow> store \<Rightarrow> exn + jsonString" where
  "exportScriptsAsJSON now st = dataWithJSONObject (exportData now st)"

text \<open>
  importScriptsFromJSON:. The result is the BOOL the method returns and the store it
  leaves. \<open>importData\<close> is declared a dictionary; a JSON document whose top level is an
  array makes \<open>importData[@"metadata"]\<close> raise. The two values found are copied into the
  properties without a look at what they are: \<open>dictionaryOfDictionaries\<close> and
  \<open>dictionaryOfStrings\<close> say when they have the declared types of the properties.
\<close>

definition dictionaryOfDictionaries :: "obj \<Rightarrow> (string \<times> dict) list option" where
  "dictionaryOfDictionaries v =
     (case v of
        NSDictionary kvs \<Rightarrow>
          those (map (\<lambda>kv. case snd kv of NSDictionary d \<Rightarrow> Some (fst kv, d) | _ \<Rightarrow> None) kvs)
      | _ \<Rightarrow> None)"

definition dictionaryOfStrings :: "obj \<Rightarrow> (string \<times> string) list option" where
  "dictionaryOfStrings v =
     (case v of
        NSDictionary kvs \<Rightarrow>
          those (map (\<lambda>kv. case snd kv of NSString s \<Rightarrow> Some (fst kv, s) | _ \<Rightarrow> None) kvs)
      | _ \<Rightarrow> None)"

definition importScriptsFromJSON :: "jsonString \<Rightarrow> store \<Rightarrow> exn + (bool \<times> store)" where
  "importScriptsFromJSON jsonString st =
     (case JSONObjectWithData jsonString of
        None \<Rightarrow> Inr (False, st)
      | Some importData \<Rightarrow>
          (case importData of
             NSDictionary kvs \<Rightarrow>
               (case (map_of kvs ''metadata'', map_of kvs ''sources'') of
                  (Some metadata, Some sources) \<Rightarrow>
                    (case (dictionaryOfDictionaries metadata, dictionaryOfStrings sources) of
                       (Some m, Some s) \<Rightarrow>
                         (case saveScriptsToStorage (st\<lparr>scripts := m, scriptSources := s\<rparr>) of
                            Inl e \<Rightarrow> Inl e
                          | Inr st' \<Rightarrow> Inr (True, st'))
                     | _ \<Rightarrow> Inl UndeclaredType)
                | _ \<Rightarrow> Inr (False, st))
           | _ \<Rightarrow> Inl NSInvalidArgumentException))"

text \<open>
  A store is \<open>storable\<close> when NSUserDefaults accepts its dictionaries, that is when every
  object of every metadata dictionary is a property-list object. (The sources are strings
  and always are.) Every operation that returns has just written the store to
  NSUserDefaults and so leaves it storable.
\<close>

definition storable :: "store \<Rightarrow> bool" where
  "storable st = isPropertyList (metadataObject (scripts st))"

text \<open>
  The stores that a fresh manager reaches through saving, removing, clearing and
  reloading, that is without an import.
\<close>

inductive built :: "store \<Rightarrow> bool" where
  fresh: "built (init None None)"
| saved: "built st \<Longrightarrow>
          saveScriptWithId now scriptId nm descr src ver pat st = Inr st' \<Longrightarrow> built st'"
| removed: "built st \<Longrightarrow> removeScriptById scriptId st = Inr st' \<Longrightarrow> built st'"
| cleared: "built st \<Longrightarrow> clearAllScripts st = Inr st' \<Longrightarrow> built st'"
| loaded: "built st \<Longrightarrow> built (loadScripts st)"

section \<open>The backend's script documents (models/Script.js, routes/scripts.js)\<close>

text \<open>
  JSON values, for the nested \<open>metadata\<close> object of a document and for the documents a
  route sends back.
\<close>

datatype js =
    JString string
  | JNumber int
  | JBool bool
  | JDate nat
  | JArray "js list"
  | JObject "(string \<times> js) list"

text \<open>
  The fields of ScriptSchema that the create, update and list routes read or write. The
  counters, the reviews and the other fields that only the schema's defaults fill are left
  out.
\<close>

record versionEntry =
  entryVersion :: string
  entrySourceCode :: string
  changelog :: string
  entryCreatedAt :: nat

record script =
  docId :: string
  name :: string
  description :: string
  sourceCode :: string
  version :: string
  authorId :: string
  authorName :: string
  tags :: "string list"
  category :: string
  metadata :: "(string \<times> js) list"
  isPublic :: bool
  versionHistory :: "versionEntry list"
  createdAt :: nat
  updatedAt :: nat






text \<open>
  The setters of the schema: \<open>trim\<close> on \<open>name\<close>, \<open>trim\<close> and \<open>lowercase\<close> on every tag.
\<close>

definition isSpace :: "char \<Rightarrow> bool" where
  "isSpace c = (c \<in> set [CHR '' '', CHR 0x09, CHR 0x0A, CHR 0x0B, CHR 0x0C, CHR 0x0D, CHR 0xA0])"

definition trim :: "string \<Rightarrow> string" where
  "trim s = rev (dropWhile isSpace (rev (dropWhile isSpace s)))"

datatype error = ValidationError



text \<open>
  The body of a PUT request: every field may be absent (\<open>None\<close>). A string counts as given
  when it is present and not empty (JavaScript truthiness), and \<open>given\<close> answers it then; an
  array or an object counts as given whenever it is present.
\<close>

record body =
  reqName :: "string option"
  reqDescription :: "string option"
  reqSourceCode :: "string option"
  reqVersion :: "string option"
  reqTags :: "string list option"
  reqCategory :: "string option"
  reqMetadata :: "(string \<times> js) list option"
  reqIsPublic :: "bool option"
  reqChangelog :: "string option"

definition given :: "string option \<Rightarrow> string option" where
  "given v = (case v of Some (c # cs) \<Rightarrow> Some (c # cs) | _ \<Rightarrow> None)"

definition spread :: "(string \<times> js) list \<Rightarrow> (string \<times> js) list \<Rightarrow> (string \<times> js) list" where
  "spread a b = foldl (\<lambda>acc kv. AList.update (fst kv) (snd kv) acc) a b"

text \<open>
  The assignments of the update route, in the order of the source.
\<close>

definition updateFields :: "body \<Rightarrow> script \<Rightarrow> script" where
  "updateFields b d =
     (let d = (case given (reqName b) of Some v \<Rightarrow> d\<lparr>name := trim v\<rparr> | None \<Rightarrow> d);
          d = (case given (reqDescription b) of
                 Some v \<Rightarrow> d\<lparr>description := v\<rparr>
               | None \<Rightarrow> d);
          d = (case given (reqSourceCode b) of
                 Some v \<Rightarrow> d\<lparr>sourceCode := v\<rparr>
               | None \<Rightarrow> d);
          d = (case given (reqVersion b) of Some v \<Rightarrow> d\<lparr>version := v\<rparr> | None \<Rightarrow> d);
          d = (case reqTags b of
                 Some ts \<Rightarrow> d\<lparr>tags := map (\<lambda>t. lowercaseString (trim t)) ts\<rparr>
               | None \<Rightarrow> d);
          d = (case given (reqCategory b) of
                 Some v \<Rightarrow> d\<lparr>category := v\<rparr>
               | None \<Rightarrow> d);
          d = (case reqMetadata b of
                 Some m \<Rightarrow> d\<lparr>metadata := spread (metadata d) m\<rparr>
               | None \<Rightarrow> d);
          d = (case reqIsPublic b of Some p \<Rightarrow> d\<lparr>isPublic := p\<rparr> | None \<Rightarrow> d)
      in d)"



text \<open>
  \<open>router.get('/')\<close>: the documents of the user, sorted by \<open>updatedAt\<close> descending, each
  without its \<open>sourceCode\<close>. Documents with the same \<open>updatedAt\<close> stay in the order of the
  collection.
\<close>

definition entryObject :: "versionEntry \<Rightarrow> js" where
  "entryObject e =
     JObject
       [(''version'', JString (entryVersion e)),
        (''sourceCode'', JString (entrySourceCode e)),
        (''changelog'', JString (changelog e)),
        (''createdAt'', JDate (entryCreatedAt e))]"

definition toObject :: "script \<Rightarrow> (string \<times> js) list" where
  "toObject d =
     [(''_id'', JString (docId d)),
      (''name'', JString (name d)),
      (''description'', JString (description d)),
      (''sourceCode'', JString (sourceCode d)),
      (''version'', JString (version d)),
      (''authorId'', JString (authorId d)),
      (''authorName'', JString (authorName d)),
      (''tags'', JArray (map JString (tags d))),
      (''category'', JString (category d)),
      (''metadata'', JObject (metadata d)),
      (''isPublic'', JBool (isPublic d)),
      (''versionHistory'', JArray (map entryObject (versionHistory d))),
      (''createdAt'', JDate (createdAt d)),
      (''updatedAt'', JDate (updatedAt d))]"

definition sortByUpdatedAtDescending :: "script list \<Rightarrow> script list" where
  "sortByUpdatedAtDescending ds = sort_key (\<lambda>d. - int (updatedAt d)) ds"

definition selectWithout :: "string \<Rightarrow> script \<Rightarrow> (string \<times> js) list" where
  "selectWithout field d = AList.delete field (toObject d)"

record listing =
  success :: bool
  count :: nat
  listed :: "(string \<times> js) list list"

definition getScripts :: "string \<Rightarrow> script list \<Rightarrow> listing" where
  "getScripts userId db =
     (let found = sortByUpdatedAtDescending (filter (\<lambda>d. authorId d = userId) db);
          selected = map (selectWithout ''sourceCode'') found
      in \<lparr>success = True, count = length selected, listed = selected\<rparr>)"

section \<open>Properties of the wildcard patterns\<close>

declare numberOfMatchesInString.simps [simp del]
declare replaceOccurrences.simps [simp del]

lemma meta_facts: "isMeta star" "isMeta backslash" "isMeta dot" "star \<noteq> backslash" "dot \<noteq> backslash" "dot \<noteq> star"
  by (simp_all add: isMeta_def metaChars_def star_def backslash_def dot_def)

lemma escaped_Cons:
  "escapedPatternForString (c # cs) =
     (if isMeta c then [backslash, c] else [c]) @ escapedPatternForString cs"
  by (simp add: escapedPatternForString_def)

lemma escaped_Nil: "escapedPatternForString [] = []"
  by (simp add: escapedPatternForString_def)

lemma escaped_no_leading_star: "escapedPatternForString p \<noteq> star # xs"
  using meta_facts by (cases p) (auto simp: escaped_Cons escaped_Nil)

lemma replace_Nil: "replaceOccurrences t r [] = []"
  by (simp add: replaceOccurrences.simps)

lemma replace_hit:
  "replaceOccurrences [backslash, star] r (backslash # star # s) =
     r @ replaceOccurrences [backslash, star] r s"
  by (simp add: replaceOccurrences.simps)

lemma replace_miss_char:
  "c \<noteq> backslash \<Longrightarrow>
   replaceOccurrences [backslash, star] r (c # s) = c # replaceOccurrences [backslash, star] r s"
  by (simp add: replaceOccurrences.simps)

lemma replace_miss_next:
  "s \<noteq> star # tl s \<or> s = [] \<Longrightarrow>
   replaceOccurrences [backslash, star] r (backslash # s) =
     backslash # replaceOccurrences [backslash, star] r s"
  by (cases s) (auto simp add: replaceOccurrences.simps)

lemma regexPatternOf_Nil: "regexPatternOf [] = []"
  by (simp add: regexPatternOf_def escaped_Nil replace_Nil)

lemma regexPatternOf_Cons:
  "regexPatternOf (c # cs) =
     (if c = star then [dot, star] else if isMeta c then [backslash, c] else [c])
     @ regexPatternOf cs"
proof -
  let ?e = "escapedPatternForString cs"
  have nostar: "?e \<noteq> star # tl ?e \<or> ?e = []"
    using escaped_no_leading_star by blast
  show ?thesis
  proof (cases "c = star")
    case True
    then show ?thesis
      using meta_facts by (simp add: regexPatternOf_def escaped_Cons replace_hit)
  next
    case ns: False
    show ?thesis
    proof (cases "isMeta c")
      case False
      then have "c \<noteq> backslash" using meta_facts by auto
      with False ns show ?thesis
        by (simp add: regexPatternOf_def escaped_Cons replace_miss_char)
    next
      case True
      show ?thesis
      proof (cases "c = backslash")
        case True
        then show ?thesis
          using ns \<open>isMeta c\<close> nostar
          by (simp add: regexPatternOf_def escaped_Cons replace_miss_next)
      next
        case False
        have "replaceOccurrences [backslash, star] [dot, star] (backslash # c # ?e)
              = backslash # replaceOccurrences [backslash, star] [dot, star] (c # ?e)"
          using ns by (intro replace_miss_next) simp
        then show ?thesis
          using ns \<open>isMeta c\<close> False
          by (simp add: regexPatternOf_def escaped_Cons replace_miss_char)
      qed
    qed
  qed
qed

lemma regexPatternOf_empty_iff: "regexPatternOf p = [] \<longleftrightarrow> p = []"
  by (cases p) (auto simp: regexPatternOf_Nil regexPatternOf_Cons)

lemma readAtoms_regexPatternOf: "readAtoms (regexPatternOf p) = Inr (map atomOf p)"
proof (induction p)
  case Nil
  then show ?case by (simp add: regexPatternOf_Nil)
next
  case (Cons c cs)
  then show ?case
    using meta_facts by (auto simp: regexPatternOf_Cons atomOf_def)
qed

lemma regexPatternOf_compiles:
  "regularExpressionWithPattern (regexPatternOf p) =
     (if p = [] then Inl EmptyPattern else Inr (map atomOf p))"
  by (simp add: regularExpressionWithPattern_def regexPatternOf_empty_iff readAtoms_regexPatternOf)


lemma numberOfMatches_pos:
  "(0 < numberOfMatchesInString r s) = (\<exists>n\<le>length s. matchAt r (drop n s) \<noteq> None)"
proof (induction s)
  case Nil
  show ?case
    by (subst numberOfMatchesInString.simps) (simp split: option.splits)
next
  case (Cons x xs)
  show ?case
  proof (cases "matchAt r (x # xs)")
    case None
    have "(\<exists>n\<le>length (x # xs). matchAt r (drop n (x # xs)) \<noteq> None) =
          (\<exists>n\<le>length xs. matchAt r (drop n xs) \<noteq> None)" (is "?L = ?R")
    proof
      assume ?L
      then obtain n where n: "n \<le> length (x # xs)" "matchAt r (drop n (x # xs)) \<noteq> None"
        by blast
      with None obtain m where "n = Suc m" by (cases n) auto
      with n show ?R by auto
    next
      assume ?R
      then obtain m where "m \<le> length xs" "matchAt r (drop m xs) \<noteq> None" by blast
      then show ?L by (intro exI[of _ "Suc m"]) simp
    qed
    with None Cons.IH show ?thesis
      by (subst numberOfMatchesInString.simps) simp
  next
    case (Some rest)
    then have "\<exists>n\<le>length (x # xs). matchAt r (drop n (x # xs)) \<noteq> None"
      by (intro exI[of _ 0]) simp
    with Some show ?thesis
      by (subst numberOfMatchesInString.simps) simp
  qed
qed

lemma matchAt_literals:
  "star \<notin> set p \<Longrightarrow>
   (matchAt (map atomOf p) s \<noteq> None) =
     (length p \<le> length s \<and> lowercaseString (take (length p) s) = lowercaseString p)"
proof (induction p arbitrary: s)
  case Nil
  then show ?case by (simp add: lowercaseString_def)
next
  case (Cons c p)
  then show ?case
    by (cases s) (auto simp: atomOf_def sameLetter_def lowercaseString_def)
qed


lemma substring_split:
  "(\<exists>n\<le>length s. \<exists>m\<le>length (drop n s). P (take m (drop n s))) =
   (\<exists>pre mid post. s = pre @ mid @ post \<and> P mid)"
proof
  assume "\<exists>n\<le>length s. \<exists>m\<le>length (drop n s). P (take m (drop n s))"
  then obtain n m where "P (take m (drop n s))" by blast
  moreover have "s = take n s @ take m (drop n s) @ drop m (drop n s)"
    by (metis append_take_drop_id)
  ultimately show "\<exists>pre mid post. s = pre @ mid @ post \<and> P mid" by blast
next
  assume "\<exists>pre mid post. s = pre @ mid @ post \<and> P mid"
  then obtain pre mid post where s: "s = pre @ mid @ post" and P: "P mid" by blast
  show "\<exists>n\<le>length s. \<exists>m\<le>length (drop n s). P (take m (drop n s))"
    using s P by (intro exI[of _ "length pre"] exI[of _ "length mid"] conjI) auto
qed

lemma url_matchesPattern_search:
  "url_matchesPattern url p =
     (p \<noteq> [] \<and> (\<exists>n\<le>length url. matchAt (map atomOf p) (drop n url) \<noteq> None))"
  by (simp add: url_matchesPattern_def regexPatternOf_compiles numberOfMatches_pos)



lemma substring_fixed:
  "(\<exists>n\<le>length v. length u \<le> length (drop n v) \<and> f (take (length u) (drop n v)) = f u) =
   (\<exists>pre mid post. v = pre @ mid @ post \<and> length mid = length u \<and> f mid = f u)"
proof -
  have "(\<exists>n\<le>length v. length u \<le> length (drop n v) \<and> f (take (length u) (drop n v)) = f u) =
        (\<exists>n\<le>length v. \<exists>m\<le>length (drop n v).
            length (take m (drop n v)) = length u \<and> f (take m (drop n v)) = f u)"
    (is "?L = ?R")
  proof
    assume ?L
    then obtain n where n: "n \<le> length v" "length u \<le> length (drop n v)"
      "f (take (length u) (drop n v)) = f u" by blast
    then show ?R
      by (intro exI[of _ n] exI[of _ "length u"] conjI) auto
  next
    assume ?R
    then obtain n m where nm: "n \<le> length v" "m \<le> length (drop n v)"
      "length (take m (drop n v)) = length u" "f (take m (drop n v)) = f u" by blast
    from nm(2,3) have "m = length u" by simp
    with nm show ?L by (intro exI[of _ n]) auto
  qed
  then show ?thesis
    by (simp only: substring_split[where P = "\<lambda>mid. length mid = length u \<and> f mid = f u"])
qed

lemma lowercaseString_length: "lowercaseString a = lowercaseString b \<Longrightarrow> length a = length b"
  unfolding lowercaseString_def by (rule map_eq_imp_length_eq)

text \<open>
  Claim C1, as the code has it. The compiled pattern is searched for in the URL, it is not
  anchored at the two ends of the URL, and letters match up to case. For a pattern \<open>u\<close>
  without \<open>*\<close>: a non-empty \<open>u\<close> matches the URL \<open>u\<close>, and \<open>u\<close> matches a URL \<open>v\<close> exactly when
  \<open>u\<close> is not empty and \<open>v\<close> contains, somewhere, a piece equal to \<open>u\<close> up to case.
\<close>

theorem literal_pattern_search:
  "star \<notin> set u \<longrightarrow>
     (u \<noteq> [] \<longrightarrow> url_matchesPattern u u) \<and>
     url_matchesPattern v u =
       (u \<noteq> [] \<and>
        (\<exists>pre mid post. v = pre @ mid @ post \<and> lowercaseString mid = lowercaseString u))"
proof (intro impI)
  assume ns: "star \<notin> set u"
  have "url_matchesPattern w u =
       (u \<noteq> [] \<and>
        (\<exists>pre mid post. w = pre @ mid @ post \<and> lowercaseString mid = lowercaseString u))"
    for w
  proof -
    have "url_matchesPattern w u =
          (u \<noteq> [] \<and> (\<exists>pre mid post. w = pre @ mid @ post \<and> length mid = length u \<and>
                lowercaseString mid = lowercaseString u))"
      unfolding url_matchesPattern_search matchAt_literals[OF ns] substring_fixed ..
    then show ?thesis
      using lowercaseString_length by blast
  qed
  note char = this
  have "u \<noteq> [] \<longrightarrow> url_matchesPattern u u"
  proof
    assume "u \<noteq> []"
    moreover have "u = [] @ u @ []" by simp
    ultimately show "url_matchesPattern u u"
      unfolding char by blast
  qed
  with char[of v] show "(u \<noteq> [] \<longrightarrow> url_matchesPattern u u) \<and>
     url_matchesPattern v u =
       (u \<noteq> [] \<and>
        (\<exists>pre mid post. v = pre @ mid @ post \<and> lowercaseString mid = lowercaseString u))"
    by blast
qed

text \<open>
  The theorem at the pattern \<open>http://a.b/\<close>, found inside a longer text in capitals.
\<close>

theorem literal_pattern_search_witness:
  "url_matchesPattern ''http://a.b/'' ''http://a.b/'' \<and>
   url_matchesPattern ''see HTTP://A.B/x'' ''http://a.b/''"
proof -
  have ns: "star \<notin> set ''http://a.b/''" by (simp add: star_def)
  have low: "lowercaseString ''HTTP://A.B/'' = lowercaseString ''http://a.b/''"
    by code_simp
  have "''see HTTP://A.B/x'' = ''see '' @ ''HTTP://A.B/'' @ ''x''" by simp
  with low have ex: "\<exists>pre mid post. ''see HTTP://A.B/x'' = pre @ mid @ post \<and>
      lowercaseString mid = lowercaseString ''http://a.b/''" by blast
  from literal_pattern_search[of "''http://a.b/''" "''see HTTP://A.B/x''"] ns ex
  show ?thesis by simp
qed

text \<open>
  Claim C1 as stated fails: the pattern \<open>https://example.com/\<close> holds no \<open>*\<close> and matches
  the different URL \<open>https://example.com/admin\<close>.
\<close>

theorem exact_match_counterexample:
  "star \<notin> set ''https://example.com/'' \<and>
   ''https://example.com/admin'' \<noteq> ''https://example.com/'' \<and>
   url_matchesPattern ''https://example.com/admin'' ''https://example.com/''"
  by code_simp

section \<open>Properties of the script store\<close>

lemma isPropertyList_sourcesObject: "isPropertyList (sourcesObject m)"
  by (simp add: sourcesObject_def list_all_iff)


lemma saveScriptsToStorage_eq:
  "saveScriptsToStorage st =
     (if storable st
      then Inr (st\<lparr>storedMetadata := Some (scripts st), storedSources := Some (scriptSources st)\<rparr>)
      else Inl NSInvalidArgumentException)"
  by (simp add: saveScriptsToStorage_def storable_def isPropertyList_sourcesObject)

lemma update_entries: "set (AList.update k v al) \<subseteq> insert (k, v) (set al)"
  by (induction al) auto

lemma delete_entries: "set (AList.delete k al) \<subseteq> set al"
  by (auto simp: AList.delete_eq)








lemma saveScriptsToStorage_Inr:
  "saveScriptsToStorage st = Inr st' \<Longrightarrow>
     storable st \<and>
     st' = st\<lparr>storedMetadata := Some (scripts st), storedSources := Some (scriptSources st)\<rparr>"
  by (auto simp: saveScriptsToStorage_eq split: if_splits)

lemma returned_store_storable:
  "saveScriptWithId now scriptId nm descr src ver pat st = Inr st' \<Longrightarrow> storable st'"
  "removeScriptById scriptId st = Inr st' \<Longrightarrow> storable st'"
  "clearAllScripts st = Inr st' \<Longrightarrow> storable st'"
  "importScriptsFromJSON js st = Inr (True, st') \<Longrightarrow> storable st'"
proof -
  have keep: "storable (x\<lparr>storedMetadata := a, storedSources := b\<rparr>) = storable x" for x a b
    by (simp add: storable_def)
  show "saveScriptWithId now scriptId nm descr src ver pat st = Inr st' \<Longrightarrow> storable st'"
    by (auto simp: saveScriptWithId_def Let_def keep dest!: saveScriptsToStorage_Inr)
  show "removeScriptById scriptId st = Inr st' \<Longrightarrow> storable st'"
    by (auto simp: removeScriptById_def keep dest!: saveScriptsToStorage_Inr)
  show "clearAllScripts st = Inr st' \<Longrightarrow> storable st'"
    by (auto simp: clearAllScripts_def keep dest!: saveScriptsToStorage_Inr)
  show "importScriptsFromJSON js st = Inr (True, st') \<Longrightarrow> storable st'"
    by (auto simp: importScriptsFromJSON_def keep
        split: option.splits obj.splits sum.splits dest!: saveScriptsToStorage_Inr)
qed

lemma built_keys:
  "built st \<Longrightarrow>
     (\<forall>kv \<in> set (scripts st).
        map fst (snd kv) = [''id'', ''name'', ''description'', ''version'', ''domain'', ''updatedAt'']) \<and>
     (\<forall>m. storedMetadata st = Some m \<longrightarrow>
        (\<forall>kv \<in> set m.
           map fst (snd kv) = [''id'', ''name'', ''description'', ''version'', ''domain'', ''updatedAt'']))"
proof (induction rule: built.induct)
  case fresh
  show ?case by (simp add: init_def)
next
  case (saved st now scriptId nm descr src ver pat st')
  from saved.hyps(2) have st': "st' = st\<lparr>scripts := AList.update scriptId
        [(''id'', NSString scriptId), (''name'', NSString nm), (''description'', NSString descr),
         (''version'', NSString ver), (''domain'', NSString pat), (''updatedAt'', NSDate now)]
        (scripts st),
      scriptSources := AList.update scriptId src (scriptSources st),
      storedMetadata := Some (AList.update scriptId
        [(''id'', NSString scriptId), (''name'', NSString nm), (''description'', NSString descr),
         (''version'', NSString ver), (''domain'', NSString pat), (''updatedAt'', NSDate now)]
        (scripts st)),
      storedSources := Some (AList.update scriptId src (scriptSources st))\<rparr>"
    by (auto simp: saveScriptWithId_def Let_def dest!: saveScriptsToStorage_Inr)
  have "map fst (snd kv) = [''id'', ''name'', ''description'', ''version'', ''domain'', ''updatedAt'']"
    if "kv \<in> set (AList.update scriptId
        [(''id'', NSString scriptId), (''name'', NSString nm), (''description'', NSString descr),
         (''version'', NSString ver), (''domain'', NSString pat), (''updatedAt'', NSDate now)]
        (scripts st))" for kv
  proof -
    from that update_entries have "kv = (scriptId,
        [(''id'', NSString scriptId), (''name'', NSString nm), (''description'', NSString descr),
         (''version'', NSString ver), (''domain'', NSString pat), (''updatedAt'', NSDate now)])
        \<or> kv \<in> set (scripts st)" by fastforce
    then show ?thesis using saved.IH by auto
  qed
  then show ?case by (simp add: st')
next
  case (removed st scriptId st')
  from removed.hyps(2) have st': "st' = st\<lparr>scripts := AList.delete scriptId (scripts st),
      scriptSources := AList.delete scriptId (scriptSources st),
      storedMetadata := Some (AList.delete scriptId (scripts st)),
      storedSources := Some (AList.delete scriptId (scriptSources st))\<rparr>"
    by (auto simp: removeScriptById_def dest!: saveScriptsToStorage_Inr)
  have "kv \<in> set (scripts st)" if "kv \<in> set (AList.delete scriptId (scripts st))" for kv
    using that delete_entries by fastforce
  then show ?case using removed.IH by (simp add: st')
next
  case (cleared st st')
  from cleared.hyps(2) have "st' = st\<lparr>scripts := [], scriptSources := [],
      storedMetadata := Some [], storedSources := Some []\<rparr>"
    by (auto simp: clearAllScripts_def dest!: saveScriptsToStorage_Inr)
  then show ?case by simp
next
  case (loaded st)
  then show ?case by (cases "storedMetadata st") (auto simp: loadScripts_def)
qed

lemma map_of_absent: "k \<notin> set (map fst al) \<Longrightarrow> map_of al k = None"
  by (simp add: map_of_eq_None_iff)

text \<open>
  Claim C9, as the code has it. In a store built by saving, removing, clearing and
  reloading, every element of listAllScriptsMetadata has exactly the six keys that
  saveScriptWithId: writes, and no \<open>sourceCode\<close>. Every element of the backend's listing has no
  \<open>sourceCode\<close> field.
\<close>

theorem list_without_source:
  "(built st \<longrightarrow>
      (\<forall>m \<in> set (listAllScriptsMetadata st).
         map fst m = [''id'', ''name'', ''description'', ''version'', ''domain'', ''updatedAt''] \<and>
         map_of m ''sourceCode'' = None)) \<and>
   (\<forall>d \<in> set (listed (getScripts userId db)). map_of d ''sourceCode'' = None)"
proof (intro conjI impI ballI)
  fix m
  assume "built st" and m: "m \<in> set (listAllScriptsMetadata st)"
  from built_keys[OF \<open>built st\<close>] m
  show keys: "map fst m = [''id'', ''name'', ''description'', ''version'', ''domain'', ''updatedAt'']"
    by (auto simp: listAllScriptsMetadata_def)
  show "map_of m ''sourceCode'' = None"
    by (rule map_of_absent) (simp add: keys)
next
  fix d
  assume "d \<in> set (listed (getScripts userId db))"
  then obtain s where "d = selectWithout ''sourceCode'' s"
    by (auto simp: getScripts_def Let_def)
  then show "map_of d ''sourceCode'' = None"
    by (simp add: selectWithout_def delete_conv')
qed

text \<open>
  The theorem at the store left by one save, and at a collection of one document.
\<close>

theorem list_without_source_witness:
  "list_all (\<lambda>m. map_of m ''sourceCode'' = None)
     (listAllScriptsMetadata
        \<lparr>scripts =
           [(''s1'', [(''id'', NSString ''s1''), (''name'', NSString ''Demo''),
                      (''description'', NSString ''demo''), (''version'', NSString ''1.0.0''),
                      (''domain'', NSString ''*://*/*''), (''updatedAt'', NSDate 7)])],
         scriptSources = [(''s1'', ''alert(1)'')],
         storedMetadata =
           Some [(''s1'', [(''id'', NSString ''s1''), (''name'', NSString ''Demo''),
                      (''description'', NSString ''demo''), (''version'', NSString ''1.0.0''),
                      (''domain'', NSString ''*://*/*''), (''updatedAt'', NSDate 7)])],
         storedSources = Some [(''s1'', ''alert(1)'')]\<rparr>) \<and>
   list_all (\<lambda>d. map_of d ''sourceCode'' = None)
     (listed (getScripts ''u1''
        [\<lparr>docId = ''d1'', name = ''Demo'', description = ''demo'', sourceCode = ''alert(1)'',
          version = ''1.0.0'', authorId = ''u1'', authorName = ''ann'', tags = [],
          category = ''other'', metadata = [], isPublic = False, versionHistory = [],
          createdAt = 1, updatedAt = 1\<rparr>]))"
proof -
  let ?S = "\<lparr>scripts =
           [(''s1'', [(''id'', NSString ''s1''), (''name'', NSString ''Demo''),
                      (''description'', NSString ''demo''), (''version'', NSString ''1.0.0''),
                      (''domain'', NSString ''*://*/*''), (''updatedAt'', NSDate 7)])],
         scriptSources = [(''s1'', ''alert(1)'')],
         storedMetadata =
           Some [(''s1'', [(''id'', NSString ''s1''), (''name'', NSString ''Demo''),
                      (''description'', NSString ''demo''), (''version'', NSString ''1.0.0''),
                      (''domain'', NSString ''*://*/*''), (''updatedAt'', NSDate 7)])],
         storedSources = Some [(''s1'', ''alert(1)'')]\<rparr>"
  have "saveScriptWithId 7 ''s1'' ''Demo'' ''demo'' ''alert(1)'' ''1.0.0'' ''*://*/*''
          (init None None) = Inr ?S"
    by (simp add: saveScriptWithId_def Let_def saveScriptsToStorage_def init_def
        metadataObject_def sourcesObject_def)
  with built.fresh have "built ?S" by (rule built.saved)
  with list_without_source[of ?S "''u1''"] show ?thesis
    unfolding list_all_iff by blast
qed

text \<open>
  Claim C9 as stated, for every store, fails: importScriptsFromJSON: copies the metadata of
  a snapshot as it finds them, and the store it leaves here lists an element with a
  \<open>sourceCode\<close> field.
\<close>

theorem imported_metadata_counterexample:
  "importScriptsFromJSON
     (Encodes (NSDictionary
        [(''metadata'', NSDictionary [(''x'', NSDictionary [(''sourceCode'', NSString ''alert(1)'')])]),
         (''sources'', NSDictionary [])]))
     (init None None) =
     Inr (True,
          \<lparr>scripts = [(''x'', [(''sourceCode'', NSString ''alert(1)'')])],
           scriptSources = [],
           storedMetadata = Some [(''x'', [(''sourceCode'', NSString ''alert(1)'')])],
           storedSources = Some []\<rparr>) \<and>
   listAllScriptsMetadata
     \<lparr>scripts = [(''x'', [(''sourceCode'', NSString ''alert(1)'')])],
      scriptSources = [],
      storedMetadata = Some [(''x'', [(''sourceCode'', NSString ''alert(1)'')])],
      storedSources = Some []\<rparr> = [[(''sourceCode'', NSString ''alert(1)'')]]"
  by (simp add: importScriptsFromJSON_def JSONObjectWithData_def isValidJSONObject_def
      dictionaryOfDictionaries_def dictionaryOfStrings_def saveScriptsToStorage_def
      metadataObject_def sourcesObject_def init_def listAllScriptsMetadata_def)

lemma enumerate_selected:
  "\<forall>kv \<in> set entries. \<exists>p. map_of (snd kv) ''domain'' = Some (NSString p) \<Longrightarrow>
   enumerateKeysAndObjects sources u entries acc =
     Inr (acc @ concat (map (\<lambda>kv. case map_of sources (fst kv) of Some src \<Rightarrow> [src] | None \<Rightarrow> [])
            (filter (\<lambda>kv. \<exists>p. map_of (snd kv) ''domain'' = Some (NSString p) \<and>
                              url_matchesPattern u p) entries)))"
proof (induction entries arbitrary: acc)
  case Nil
  then show ?case by simp
next
  case (Cons e entries)
  obtain key m where e: "e = (key, m)" by (cases e)
  from Cons.prems e obtain p where p: "map_of m ''domain'' = Some (NSString p)" by auto
  from Cons.prems have rest: "\<forall>kv \<in> set entries. \<exists>p. map_of (snd kv) ''domain'' = Some (NSString p)"
    by simp
  show ?case
    using Cons.IH[OF rest] e p by (simp split: option.splits)
qed

lemma enumerate_independent:
  "map fst a = map fst b \<Longrightarrow>
   map (\<lambda>kv. map_of (snd kv) ''domain'') a = map (\<lambda>kv. map_of (snd kv) ''domain'') b \<Longrightarrow>
   enumerateKeysAndObjects sources u a acc = enumerateKeysAndObjects sources u b acc"
proof (induction a arbitrary: b acc)
  case Nil
  then show ?case by simp
next
  case (Cons x a)
  from Cons.prems(1) obtain y b' where b: "b = y # b'" by (cases b) auto
  obtain k m where x: "x = (k, m)" by (cases x)
  obtain k' m' where y: "y = (k', m')" by (cases y)
  from Cons.prems b x y have same: "k' = k" "map_of m' ''domain'' = map_of m ''domain''"
    "map fst a = map fst b'"
    "map (\<lambda>kv. map_of (snd kv) ''domain'') a = map (\<lambda>kv. map_of (snd kv) ''domain'') b'"
    by auto
  have ih: "enumerateKeysAndObjects sources u a acc' = enumerateKeysAndObjects sources u b' acc'"
    for acc'
    using Cons.IH same(3,4) by blast
  show ?case
    unfolding b x y by (simp add: same ih split: option.splits obj.splits)
qed

lemma selected_sources:
  "set (concat (map (\<lambda>kv. case map_of sources (fst kv) of Some src \<Rightarrow> [src] | None \<Rightarrow> [])
          (filter P entries))) =
   {src. \<exists>kv \<in> set entries. P kv \<and> map_of sources (fst kv) = Some src}"
  by (auto split: option.splits)

text \<open>
  Claim C2, as the code has it. A script has one pattern, the \<open>domain\<close> of its metadata,
  and scriptsForURL: answers the source of a script exactly when that pattern matches the
  lower-cased URL and a source is stored for the script; nothing else in the metadata is
  read, and there are no exclude rules. The empty pattern matches no URL. The pattern
  \<open>*://*.example.com/*\<close> matches both \<open>https://x.example.com/\<close> and
  \<open>https://x.example.com/admin/y\<close>; the pattern \<open>*://*.example.com/admin/*\<close> matches the
  second and not the first.
\<close>

theorem single_pattern_selection:
  "((\<forall>kv \<in> set (scripts st). \<exists>p. map_of (snd kv) ''domain'' = Some (NSString p)) \<longrightarrow>
      (\<exists>r. scriptsForURL url st = Inr r \<and>
           set r = {src. \<exists>k m p. (k, m) \<in> set (scripts st) \<and>
                          map_of m ''domain'' = Some (NSString p) \<and>
                          url_matchesPattern (lowercaseString url) p \<and>
                          map_of (scriptSources st) k = Some src})) \<and>
   (map_of m ''domain'' = Some (NSString p) \<longrightarrow>
      scriptsForURL url
        \<lparr>scripts = [(k, m)], scriptSources = [(k, src)],
         storedMetadata = sm, storedSources = ss\<rparr> =
        Inr (if url_matchesPattern (lowercaseString url) p then [src] else [])) \<and>
   \<not> url_matchesPattern url [] \<and>
   url_matchesPattern ''https://x.example.com/'' ''*://*.example.com/*'' \<and>
   url_matchesPattern ''https://x.example.com/admin/y'' ''*://*.example.com/*'' \<and>
   \<not> url_matchesPattern ''https://x.example.com/'' ''*://*.example.com/admin/*'' \<and>
   url_matchesPattern ''https://x.example.com/admin/y'' ''*://*.example.com/admin/*''"
proof (intro conjI impI)
  assume a: "\<forall>kv \<in> set (scripts st). \<exists>p. map_of (snd kv) ''domain'' = Some (NSString p)"
  let ?P = "\<lambda>kv. \<exists>p. map_of (snd kv) ''domain'' = Some (NSString p) \<and>
                     url_matchesPattern (lowercaseString url) p"
  let ?r = "concat (map (\<lambda>kv. case map_of (scriptSources st) (fst kv) of
                               Some src \<Rightarrow> [src] | None \<Rightarrow> [])
              (filter ?P (scripts st)))"
  have r: "scriptsForURL url st = Inr ?r"
    using a by (simp only: scriptsForURL_def Let_def enumerate_selected append_Nil)
  have "set ?r = {src. \<exists>kv \<in> set (scripts st). ?P kv \<and>
                        map_of (scriptSources st) (fst kv) = Some src}"
    by (rule selected_sources)
  also have "\<dots> = {src. \<exists>k m p. (k, m) \<in> set (scripts st) \<and>
                          map_of m ''domain'' = Some (NSString p) \<and>
                          url_matchesPattern (lowercaseString url) p \<and>
                          map_of (scriptSources st) k = Some src}"
    by force
  finally show "\<exists>r. scriptsForURL url st = Inr r \<and>
           set r = {src. \<exists>k m p. (k, m) \<in> set (scripts st) \<and>
                          map_of m ''domain'' = Some (NSString p) \<and>
                          url_matchesPattern (lowercaseString url) p \<and>
                          map_of (scriptSources st) k = Some src}"
    using r by blast
next
  assume "map_of m ''domain'' = Some (NSString p)"
  then show "scriptsForURL url
        \<lparr>scripts = [(k, m)], scriptSources = [(k, src)],
         storedMetadata = sm, storedSources = ss\<rparr> =
        Inr (if url_matchesPattern (lowercaseString url) p then [src] else [])"
    by (simp add: scriptsForURL_def)
next
  show "\<not> url_matchesPattern url []"
    by (simp add: url_matchesPattern_search)
next
  show "url_matchesPattern ''https://x.example.com/'' ''*://*.example.com/*''"
    by code_simp
next
  show "url_matchesPattern ''https://x.example.com/admin/y'' ''*://*.example.com/*''"
    by code_simp
next
  show "\<not> url_matchesPattern ''https://x.example.com/'' ''*://*.example.com/admin/*''"
    by code_simp
next
  show "url_matchesPattern ''https://x.example.com/admin/y'' ''*://*.example.com/admin/*''"
    by code_simp
qed

text \<open>
  The theorem at a store of one script whose pattern is \<open>*://*.example.com/*\<close>.
\<close>

theorem single_pattern_selection_witness:
  "scriptsForURL ''https://X.example.com/''
     \<lparr>scripts = [(''s1'', [(''domain'', NSString ''*://*.example.com/*'')])],
      scriptSources = [(''s1'', ''alert(1)'')],
      storedMetadata = None, storedSources = None\<rparr> = Inr [''alert(1)''] \<and>
   set [''alert(1)''] =
     {src. \<exists>k m p. (k, m) \<in> set [(''s1'', [(''domain'', NSString ''*://*.example.com/*'')])] \<and>
            map_of m ''domain'' = Some (NSString p) \<and>
            url_matchesPattern (lowercaseString ''https://X.example.com/'') p \<and>
            map_of [(''s1'', ''alert(1)'')] k = Some src}"
proof -
  let ?S = "\<lparr>scripts = [(''s1'', [(''domain'', NSString ''*://*.example.com/*'')])],
      scriptSources = [(''s1'', ''alert(1)'')],
      storedMetadata = None, storedSources = None\<rparr>"
  note inst = single_pattern_selection[where st = "?S"
      and m = "[(''domain'', NSString ''*://*.example.com/*'')]"
      and p = "''*://*.example.com/*''" and url = "''https://X.example.com/''"
      and k = "''s1''" and src = "''alert(1)''" and sm = None and ss = None]
  have d: "map_of [(''domain'', NSString ''*://*.example.com/*'')] ''domain'' =
      Some (NSString ''*://*.example.com/*'')" by simp
  have m: "url_matchesPattern (lowercaseString ''https://X.example.com/'') ''*://*.example.com/*''"
    by code_simp
  have pats: "\<forall>kv \<in> set (scripts ?S). \<exists>p. map_of (snd kv) ''domain'' = Some (NSString p)"
    by simp
  from inst d m have one: "scriptsForURL ''https://X.example.com/'' ?S = Inr [''alert(1)'']"
    by simp
  from inst pats obtain r where r: "scriptsForURL ''https://X.example.com/'' ?S = Inr r"
    "set r = {src. \<exists>k m p. (k, m) \<in> set (scripts ?S) \<and>
                          map_of m ''domain'' = Some (NSString p) \<and>
                          url_matchesPattern (lowercaseString ''https://X.example.com/'') p \<and>
                          map_of (scriptSources ?S) k = Some src}"
    by blast
  from one r(1) have "r = [''alert(1)'']" by simp
  with r(2) have "set [''alert(1)''] =
     {src. \<exists>k m p. (k, m) \<in> set (scripts ?S) \<and>
            map_of m ''domain'' = Some (NSString p) \<and>
            url_matchesPattern (lowercaseString ''https://X.example.com/'') p \<and>
            map_of (scriptSources ?S) k = Some src}"
    by simp
  then have "set [''alert(1)''] =
     {src. \<exists>k m p. (k, m) \<in> set [(''s1'', [(''domain'', NSString ''*://*.example.com/*'')])] \<and>
            map_of m ''domain'' = Some (NSString p) \<and>
            url_matchesPattern (lowercaseString ''https://X.example.com/'') p \<and>
            map_of [(''s1'', ''alert(1)'')] k = Some src}"
    by (simp only: store.simps)
  with one show ?thesis by blast
qed

text \<open>
  Claim C2 as stated fails. By the rule-set evaluation of the specification, the include
  pattern \<open>*://*.example.com/*\<close> with the exclude pattern \<open>*://*.example.com/admin/*\<close> does
  not match \<open>https://x.example.com/admin/y\<close>. The script saved with that include pattern
  is selected for this URL, and it is selected as well when its metadata carries the
  exclude pattern under \<open>exclude\<close>.
\<close>

theorem exclude_rule_counterexample:
  "\<not> specMatches [(Include, ''*://*.example.com/*''), (Exclude, ''*://*.example.com/admin/*'')]
        ''https://x.example.com/admin/y'' \<and>
   scriptsForURL ''https://x.example.com/admin/y''
     \<lparr>scripts =
        [(''s1'', [(''id'', NSString ''s1''), (''name'', NSString ''Demo''),
                   (''description'', NSString ''demo''), (''version'', NSString ''1.0.0''),
                   (''domain'', NSString ''*://*.example.com/*''), (''updatedAt'', NSDate 7)])],
      scriptSources = [(''s1'', ''alert(1)'')],
      storedMetadata = None, storedSources = None\<rparr> = Inr [''alert(1)''] \<and>
   scriptsForURL ''https://x.example.com/admin/y''
     \<lparr>scripts =
        [(''s1'', [(''id'', NSString ''s1''), (''name'', NSString ''Demo''),
                   (''description'', NSString ''demo''), (''version'', NSString ''1.0.0''),
                   (''domain'', NSString ''*://*.example.com/*''), (''updatedAt'', NSDate 7),
                   (''exclude'', NSArray [NSString ''*://*.example.com/admin/*''])])],
      scriptSources = [(''s1'', ''alert(1)'')],
      storedMetadata = None, storedSources = None\<rparr> = Inr [''alert(1)'']"
  by code_simp

lemma sortByUpdatedAtDescending_sorted:
  "sorted_wrt (\<lambda>x y. updatedAt y \<le> updatedAt x) (sortByUpdatedAtDescending ds)"
proof -
  have "sorted (map (\<lambda>d. - int (updatedAt d)) (sortByUpdatedAtDescending ds))"
    unfolding sortByUpdatedAtDescending_def by (rule sorted_sort_key)
  then show ?thesis
    by (simp add: sorted_map)
qed

text \<open>
  Claim C8, as the code has it. scriptsForURL: reads the two dictionaries only: stores with
  the same keys in the same order of enumeration, the same \<open>domain\<close> patterns and the same
  sources give the same answer, whatever their \<open>updatedAt\<close> and whatever NSUserDefaults
  holds. When every script has a pattern, the answer is the sources of the scripts whose
  pattern matches, in the order of enumeration. The backend's listing is the user's
  documents sorted by \<open>updatedAt\<close> descending.
\<close>

theorem matching_order:
  "(map fst (scripts a) = map fst (scripts b) \<and>
    map (\<lambda>kv. map_of (snd kv) ''domain'') (scripts a) =
      map (\<lambda>kv. map_of (snd kv) ''domain'') (scripts b) \<and>
    scriptSources a = scriptSources b \<longrightarrow>
      scriptsForURL url a = scriptsForURL url b) \<and>
   ((\<forall>kv \<in> set (scripts st). \<exists>p. map_of (snd kv) ''domain'' = Some (NSString p)) \<longrightarrow>
      scriptsForURL url st =
        Inr (concat (map (\<lambda>kv. case map_of (scriptSources st) (fst kv) of
                                  Some src \<Rightarrow> [src]
                                | None \<Rightarrow> [])
               (filter (\<lambda>kv. \<exists>p. map_of (snd kv) ''domain'' = Some (NSString p) \<and>
                                 url_matchesPattern (lowercaseString url) p)
                  (scripts st))))) \<and>
   listed (getScripts userId db) =
     map (selectWithout ''sourceCode'')
       (sortByUpdatedAtDescending (filter (\<lambda>d. authorId d = userId) db)) \<and>
   sorted_wrt (\<lambda>x y. updatedAt y \<le> updatedAt x) (sortByUpdatedAtDescending ds) \<and>
   set (sortByUpdatedAtDescending ds) = set ds \<and>
   length (sortByUpdatedAtDescending ds) = length ds"
proof (intro conjI impI)
  assume "map fst (scripts a) = map fst (scripts b) \<and>
    map (\<lambda>kv. map_of (snd kv) ''domain'') (scripts a) =
      map (\<lambda>kv. map_of (snd kv) ''domain'') (scripts b) \<and>
    scriptSources a = scriptSources b"
  then have "enumerateKeysAndObjects (scriptSources a) (lowercaseString url) (scripts a) [] =
             enumerateKeysAndObjects (scriptSources a) (lowercaseString url) (scripts b) []"
    by (intro enumerate_independent) simp_all
  with \<open>_ \<and> _ \<and> scriptSources a = scriptSources b\<close>
  show "scriptsForURL url a = scriptsForURL url b"
    by (simp add: scriptsForURL_def)
next
  assume "\<forall>kv \<in> set (scripts st). \<exists>p. map_of (snd kv) ''domain'' = Some (NSString p)"
  then show "scriptsForURL url st =
        Inr (concat (map (\<lambda>kv. case map_of (scriptSources st) (fst kv) of
                                  Some src \<Rightarrow> [src]
                                | None \<Rightarrow> [])
               (filter (\<lambda>kv. \<exists>p. map_of (snd kv) ''domain'' = Some (NSString p) \<and>
                                 url_matchesPattern (lowercaseString url) p)
                  (scripts st))))"
    by (simp only: scriptsForURL_def Let_def enumerate_selected append_Nil)
next
  show "listed (getScripts userId db) =
     map (selectWithout ''sourceCode'')
       (sortByUpdatedAtDescending (filter (\<lambda>d. authorId d = userId) db))"
    by (simp add: getScripts_def Let_def)
next
  show "sorted_wrt (\<lambda>x y. updatedAt y \<le> updatedAt x) (sortByUpdatedAtDescending ds)"
    by (rule sortByUpdatedAtDescending_sorted)
next
  show "set (sortByUpdatedAtDescending ds) = set ds"
    by (simp add: sortByUpdatedAtDescending_def)
next
  show "length (sortByUpdatedAtDescending ds) = length ds"
    by (simp add: sortByUpdatedAtDescending_def)
qed

text \<open>
  The theorem at two stores that differ in \<open>updatedAt\<close> and in what is persisted.
\<close>

theorem matching_order_witness:
  "scriptsForURL ''https://Example.com/''
     \<lparr>scripts = [(''a'', [(''domain'', NSString ''*example.com*''), (''updatedAt'', NSDate 5)])],
      scriptSources = [(''a'', ''A'')],
      storedMetadata = None, storedSources = None\<rparr> = Inr [''A''] \<and>
   scriptsForURL ''https://Example.com/''
     \<lparr>scripts = [(''a'', [(''domain'', NSString ''*example.com*''), (''updatedAt'', NSDate 9)])],
      scriptSources = [(''a'', ''A'')],
      storedMetadata = Some [], storedSources = Some []\<rparr> = Inr [''A'']"
proof -
  let ?a = "\<lparr>scripts = [(''a'', [(''domain'', NSString ''*example.com*''), (''updatedAt'', NSDate 5)])],
        scriptSources = [(''a'', ''A'')], storedMetadata = None, storedSources = None\<rparr>"
  let ?b = "\<lparr>scripts = [(''a'', [(''domain'', NSString ''*example.com*''), (''updatedAt'', NSDate 9)])],
        scriptSources = [(''a'', ''A'')], storedMetadata = Some [], storedSources = Some []\<rparr>"
  note inst = matching_order[where a = "?a" and b = "?b" and st = "?a" and url = "''https://Example.com/''"]
  have same: "map fst (scripts ?a) = map fst (scripts ?b) \<and>
    map (\<lambda>kv. map_of (snd kv) ''domain'') (scripts ?a) =
      map (\<lambda>kv. map_of (snd kv) ''domain'') (scripts ?b) \<and>
    scriptSources ?a = scriptSources ?b"
    by simp
  have pats: "\<forall>kv \<in> set (scripts ?a). \<exists>p. map_of (snd kv) ''domain'' = Some (NSString p)"
    by simp
  have m: "url_matchesPattern (lowercaseString ''https://Example.com/'') ''*example.com*''"
    by code_simp
  from inst same have eq: "scriptsForURL ''https://Example.com/'' ?a =
      scriptsForURL ''https://Example.com/'' ?b"
    by blast
  from inst pats have "scriptsForURL ''https://Example.com/'' ?a =
        Inr (concat (map (\<lambda>kv. case map_of (scriptSources ?a) (fst kv) of
                                  Some src \<Rightarrow> [src]
                                | None \<Rightarrow> [])
               (filter (\<lambda>kv. \<exists>p. map_of (snd kv) ''domain'' = Some (NSString p) \<and>
                                 url_matchesPattern (lowercaseString ''https://Example.com/'') p)
                  (scripts ?a))))"
    by blast
  with m have "scriptsForURL ''https://Example.com/'' ?a = Inr [''A'']"
    by simp
  with eq show ?thesis by simp
qed

text \<open>
  Claim C8 as stated fails: two scripts both match, and scriptsForURL: answers their sources
  in the order of enumeration, which is the same whichever of the two was updated last; in
  the first store the script updated first comes first.
\<close>

theorem updatedAt_order_counterexample:
  "scriptsForURL ''https://example.com/''
     \<lparr>scripts =
        [(''a'', [(''id'', NSString ''a''), (''name'', NSString ''first''),
                  (''description'', NSString ''d''), (''version'', NSString ''1.0.0''),
                  (''domain'', NSString ''*://example.com/*''), (''updatedAt'', NSDate 1)]),
         (''b'', [(''id'', NSString ''b''), (''name'', NSString ''second''),
                  (''description'', NSString ''d''), (''version'', NSString ''1.0.0''),
                  (''domain'', NSString ''*://*/*''), (''updatedAt'', NSDate 2)])],
      scriptSources = [(''a'', ''A''), (''b'', ''B'')],
      storedMetadata = None, storedSources = None\<rparr> = Inr [''A'', ''B''] \<and>
   scriptsForURL ''https://example.com/''
     \<lparr>scripts =
        [(''a'', [(''id'', NSString ''a''), (''name'', NSString ''first''),
                  (''description'', NSString ''d''), (''version'', NSString ''1.0.0''),
                  (''domain'', NSString ''*://example.com/*''), (''updatedAt'', NSDate 2)]),
         (''b'', [(''id'', NSString ''b''), (''name'', NSString ''second''),
                  (''description'', NSString ''d''), (''version'', NSString ''1.0.0''),
                  (''domain'', NSString ''*://*/*''), (''updatedAt'', NSDate 1)])],
      scriptSources = [(''a'', ''A''), (''b'', ''B'')],
      storedMetadata = None, storedSources = None\<rparr> = Inr [''A'', ''B'']"
  by code_simp

lemma isValidJSONObject_exportData: "\<not> isValidJSONObject (exportData now st)"
  by (simp add: exportData_def isValidJSONObject_def)

text \<open>
  Claim C4 fails on the code: the object that exportScriptsAsJSON hands to
  NSJSONSerialization holds an NSDate under \<open>exportDate\<close>, so writing it as JSON raises, for
  every store and every time. There is no snapshot to import.
\<close>

theorem export_raises:
  "exportScriptsAsJSON now st = Inl NSInvalidArgumentException"
  by (simp add: exportScriptsAsJSON_def dataWithJSONObject_def isValidJSONObject_exportData)

lemma export_fresh_store:
  "exportScriptsAsJSON 0 (init None None) = Inl NSInvalidArgumentException"
  by (simp add: exportScriptsAsJSON_def dataWithJSONObject_def isValidJSONObject_exportData)




section \<open>Properties of the backend's update route\<close>



lemma updateFields_updatedAt:
  "updateFields b (x\<lparr>updatedAt := t\<rparr>) = (updateFields b x)\<lparr>updatedAt := t\<rparr>"
  by (simp add: updateFields_def Let_def split: option.splits)
















end
